theory Spec2Isabelle
  imports Complex_Main
begin

section \<open>Data model\<close>

text \<open>
  Values of Python's \<open>Any\<close> as far as the collector touches them. A message is a
  \<open>Dict[str, Any]\<close>: a partial map from field names to values.
\<close>

datatype pyval =
    IntVal int
  | FloatVal real
  | StrVal string
  | DictVal "(string \<times> pyval) list"
  | NoneVal

type_synonym message_data = "string \<rightharpoonup> pyval"

text \<open>
  The exceptions of \<open>exceptions.py\<close> that the collector raises. Each carries the
  message \<open>f"<prefix>: {str(e)}"\<close>; the prefix is fixed by the method that raises
  (the \<open>site\<close>) and the rest is the exception that was caught, which is kept as
  the cause. \<open>Raised x\<close> is an exception \<open>x\<close> that came out of the database manager.
\<close>

datatype site =
    FlushCache
  | GetUnprocessed
  | AddFiltered
  | MarkProcessed
  | GetForLearning
  | ExportData
  | ClearData
  | CreateBatch
  | UpdateBatch

datatype 'x exn =
    Raised 'x
  | DataStorageError site "'x exn"
  | MessageCollectionError "'x exn"

text \<open>
  The calls that reach the database manager, in the order they are issued. The log is
  ghost state: the code has no such field, it records what the code does.
\<close>

datatype gateway_call =
    SaveRawMessage message_data
  | GetUnprocessedMessages "int option"
  | AddFilteredMessage message_data
  | MarkMessagesProcessed "int list"
  | GetFilteredMessagesForLearning "int option"
  | GetRecentFilteredMessages string int
  | GetMessagesStatistics
  | ExportMessagesLearningData
  | ClearAllMessagesData
  | CreateLearningBatch string
  | UpdateLearningBatch int "(string \<times> pyval) list"

text \<open>
  \<open>DatabaseManager\<close> is injected into the service and its module is not part of the
  sources at hand, so it is a parameter: one function per method that the collector
  calls, over an arbitrary database state \<open>'db\<close>, each returning either the exception
  it raised or its result, and the database afterwards.
\<close>

record ('db, 'x) database_manager =
  db_save_raw_message :: "message_data \<Rightarrow> 'db \<Rightarrow> ('x + unit) \<times> 'db"
  db_get_unprocessed_messages :: "int option \<Rightarrow> 'db \<Rightarrow> ('x + message_data list) \<times> 'db"
  db_add_filtered_message :: "message_data \<Rightarrow> 'db \<Rightarrow> ('x + unit) \<times> 'db"
  db_mark_messages_processed :: "int list \<Rightarrow> 'db \<Rightarrow> ('x + unit) \<times> 'db"
  db_get_filtered_messages_for_learning :: "int option \<Rightarrow> 'db \<Rightarrow> ('x + message_data list) \<times> 'db"
  db_get_recent_filtered_messages :: "string \<Rightarrow> int \<Rightarrow> 'db \<Rightarrow> ('x + message_data list) \<times> 'db"
  db_get_messages_statistics :: "'db \<Rightarrow> ('x + message_data) \<times> 'db"
  db_export_messages_learning_data :: "'db \<Rightarrow> ('x + message_data) \<times> 'db"
  db_clear_all_messages_data :: "'db \<Rightarrow> ('x + unit) \<times> 'db"
  db_create_learning_batch :: "string \<Rightarrow> 'db \<Rightarrow> ('x + int) \<times> 'db"
  db_update_learning_batch :: "int \<Rightarrow> (string \<times> pyval) list \<Rightarrow> 'db \<Rightarrow> ('x + unit) \<times> 'db"

text \<open>
  The fields of \<open>MessageCollectorService\<close>, together with what it acts on: the state
  of the database behind \<open>self.database_manager\<close>, the log of calls made to it, and
  the number of times \<open>time.time()\<close> has been read. The wall clock is a parameter
  \<open>clock\<close> of every operation: \<open>clock n\<close> is what the \<open>n\<close>-th read returns.
\<close>

record 'db collector =
  message_cache :: "message_data list"
  cache_size_limit :: nat
  last_flush_time :: real
  flush_interval :: real
  config :: "(string \<times> pyval) list"
  database :: 'db
  calls :: "gateway_call list"
  clock_reads :: nat

type_synonym ('db, 'x, 'a) outcome = "('x exn + 'a) \<times> 'db collector"

section \<open>The message collector\<close>

definition time_time :: "(nat \<Rightarrow> real) \<Rightarrow> 'db collector \<Rightarrow> real \<times> 'db collector" where
  "time_time clock w = (clock (clock_reads w), w\<lparr>clock_reads := Suc (clock_reads w)\<rparr>)"

definition init :: "(nat \<Rightarrow> real) \<Rightarrow> (string \<times> pyval) list \<Rightarrow> 'db \<Rightarrow> 'db collector" where
  "init clock cfg d =
     \<lparr>message_cache = [], cache_size_limit = 100, last_flush_time = clock 0,
      flush_interval = 30, config = cfg, database = d, calls = [], clock_reads = 1\<rparr>"

text \<open>One awaited call of a database manager method: it is logged and run.\<close>

definition db_call ::
  "gateway_call \<Rightarrow> ('db \<Rightarrow> ('x + 'a) \<times> 'db) \<Rightarrow> 'db collector \<Rightarrow> ('x + 'a) \<times> 'db collector" where
  "db_call c f w =
     (case f (database w) of
        (r, d') \<Rightarrow> (r, w\<lparr>database := d', calls := calls w @ [c]\<rparr>))"

text \<open>
  \<open>asyncio.gather(*tasks)\<close>: every task is started, none is cancelled when another
  fails, and the first exception is the one the awaiting caller sees. The interleaving
  of the tasks is not modelled: they run to completion one after the other, in the
  order of the list.
\<close>

fun gather :: "('s \<Rightarrow> ('x + 'a) \<times> 's) list \<Rightarrow> 's \<Rightarrow> ('x + 'a) list \<times> 's" where
  "gather [] s = ([], s)"
| "gather (t # ts) s =
     (case t s of (r, s') \<Rightarrow> (case gather ts s' of (rs, s'') \<Rightarrow> (r # rs, s'')))"

fun first_exception :: "('x + 'a) list \<Rightarrow> 'x option" where
  "first_exception [] = None"
| "first_exception (Inl x # rs) = Some x"
| "first_exception (Inr a # rs) = first_exception rs"

text \<open>\<open>_flush_message_cache\<close>.\<close>

definition flush_message_cache ::
  "('db, 'x) database_manager \<Rightarrow> (nat \<Rightarrow> real) \<Rightarrow> 'db collector \<Rightarrow> ('db, 'x, unit) outcome" where
  "flush_message_cache dm clock w =
     (if message_cache w = [] then (Inr (), w)
      else
        (case gather (map (db_save_raw_message dm) (message_cache w)) (database w) of
           (rs, d') \<Rightarrow>
             (let w1 = w\<lparr>database := d',
                         calls := calls w @ map SaveRawMessage (message_cache w)\<rparr>
              in case first_exception rs of
                   Some e \<Rightarrow> (Inl (DataStorageError FlushCache (Raised e)), w1)
                 | None \<Rightarrow>
                     (case time_time clock (w1\<lparr>message_cache := []\<rparr>) of
                        (now, w2) \<Rightarrow> (Inr (), w2\<lparr>last_flush_time := now\<rparr>)))))"

definition required_fields :: "string list" where
  "required_fields = [''sender_id'', ''message'', ''timestamp'']"

text \<open>The validation loop of \<open>collect_message\<close>: the first required field that is absent.\<close>

fun missing_field :: "string list \<Rightarrow> message_data \<Rightarrow> string option" where
  "missing_field [] message = None"
| "missing_field (field # rest) message =
     (if field \<notin> dom message then Some field else missing_field rest message)"

text \<open>
  The \<open>except Exception\<close> clause of \<open>collect_message\<close> around an awaited flush:
  whatever the flush raised is raised again as a \<open>MessageCollectionError\<close>.
\<close>

definition flush_in_collect ::
  "('db, 'x) database_manager \<Rightarrow> (nat \<Rightarrow> real) \<Rightarrow> 'db collector \<Rightarrow> ('db, 'x, bool) outcome" where
  "flush_in_collect dm clock w =
     (case flush_message_cache dm clock w of
        (Inl e, w') \<Rightarrow> (Inl (MessageCollectionError e), w')
      | (Inr u, w') \<Rightarrow> (Inr True, w'))"

definition collect_message ::
  "('db, 'x) database_manager \<Rightarrow> (nat \<Rightarrow> real) \<Rightarrow> message_data \<Rightarrow> 'db collector
     \<Rightarrow> ('db, 'x, bool) outcome" where
  "collect_message dm clock message w =
     (case missing_field required_fields message of
        Some field \<Rightarrow> (Inr False, w)
      | None \<Rightarrow>
          (let w1 = w\<lparr>message_cache := message_cache w @ [message]\<rparr>
           in if cache_size_limit w1 \<le> length (message_cache w1)
              then flush_in_collect dm clock w1
              else (case time_time clock w1 of
                      (now, w2) \<Rightarrow>
                        if now - last_flush_time w2 > flush_interval w2
                        then flush_in_collect dm clock w2
                        else (Inr True, w2))))"

text \<open>
  The \<open>except Exception ... raise DataStorageError\<close> clause shared by most methods,
  for a step that can raise a collector exception and for one that calls the database.
\<close>

definition reraise :: "site \<Rightarrow> ('x exn + 'a) \<times> 's \<Rightarrow> ('x exn + 'a) \<times> 's" where
  "reraise st r = (case r of (Inl e, s) \<Rightarrow> (Inl (DataStorageError st e), s) | (Inr a, s) \<Rightarrow> (Inr a, s))"

definition lift_db :: "('x + 'a) \<times> 's \<Rightarrow> ('x exn + 'a) \<times> 's" where
  "lift_db r = (case r of (Inl x, s) \<Rightarrow> (Inl (Raised x), s) | (Inr a, s) \<Rightarrow> (Inr a, s))"



definition mark_messages_processed ::
  "('db, 'x) database_manager \<Rightarrow> int list \<Rightarrow> 'db collector \<Rightarrow> ('db, 'x, unit) outcome" where
  "mark_messages_processed dm message_ids w =
     (if message_ids = [] then (Inr (), w)
      else reraise MarkProcessed
             (lift_db (db_call (MarkMessagesProcessed message_ids)
                               (db_mark_messages_processed dm message_ids) w)))"



definition get_statistics ::
  "('db, 'x) database_manager \<Rightarrow> (nat \<Rightarrow> real) \<Rightarrow> 'db collector \<Rightarrow> ('db, 'x, message_data) outcome" where
  "get_statistics dm clock w =
     (case flush_message_cache dm clock w of
        (Inl e, w') \<Rightarrow> (Inr Map.empty, w')
      | (Inr u, w') \<Rightarrow>
          (case db_call GetMessagesStatistics (db_get_messages_statistics dm) w' of
             (Inl x, w'') \<Rightarrow> (Inr Map.empty, w'')
           | (Inr statistics, w'') \<Rightarrow>
               (Inr (statistics(''cache_size'' \<mapsto> IntVal (int (length (message_cache w''))))), w'')))"






text \<open>
  A caller that makes one \<open>collect_message\<close> call after the other, whatever each call
  returns or raises: the outcomes in order, and the service after the last call.
\<close>

fun collect_all ::
  "('db, 'x) database_manager \<Rightarrow> (nat \<Rightarrow> real) \<Rightarrow> message_data list \<Rightarrow> 'db collector
     \<Rightarrow> ('x exn + bool) list \<times> 'db collector" where
  "collect_all dm clock [] w = ([], w)"
| "collect_all dm clock (m # ms) w =
     (case collect_message dm clock m w of
        (r, w') \<Rightarrow> (case collect_all dm clock ms w' of (rs, w'') \<Rightarrow> (r # rs, w'')))"

text \<open>The outcomes of the individual writes that a flush of the current buffer issues.\<close>

definition write_outcomes :: "('db, 'x) database_manager \<Rightarrow> 'db collector \<Rightarrow> ('x + unit) list" where
  "write_outcomes dm w = fst (gather (map (db_save_raw_message dm) (message_cache w)) (database w))"

definition is_exception :: "'e + 'a \<Rightarrow> bool" where
  "is_exception r = (case r of Inl e \<Rightarrow> True | Inr a \<Rightarrow> False)"

text \<open>The \<open>cache_size\<close> entry of what \<open>get_statistics\<close> returned, if it returned one.\<close>

definition reported_cache_size :: "('e + message_data) \<Rightarrow> pyval option" where
  "reported_cache_size r = (case r of Inl e \<Rightarrow> None | Inr statistics \<Rightarrow> statistics ''cache_size'')"

section \<open>Assumptions on the storage behind the collector\<close>

text \<open>Every write of a raw message succeeds.\<close>

definition writes_succeed :: "('db, 'x) database_manager \<Rightarrow> bool" where
  "writes_succeed dm = (\<forall>m d. fst (db_save_raw_message dm m d) = Inr ())"


section \<open>A storage gateway in memory\<close>

text \<open>
  Modelled from the spec: the Storage Gateway (\<open>services/database_manager.py\<close> is not
  among the sources). The raw table is the list of the messages saved so far. Every
  method fails with a storage fault when the gateway is \<open>down\<close>; a write also fails
  for a message that \<open>rejects\<close> holds of; a failed call leaves the table as it was.
\<close>

definition memory_gateway ::
  "(message_data \<Rightarrow> bool) \<Rightarrow> bool \<Rightarrow> (message_data list, string) database_manager" where
  "memory_gateway rejects down =
     \<lparr>db_save_raw_message =
        (\<lambda>m d. if down \<or> rejects m then (Inl ''storage fault'', d) else (Inr (), d @ [m])),
      db_get_unprocessed_messages =
        (\<lambda>limit d. if down then (Inl ''storage fault'', d)
                    else (Inr (case limit of None \<Rightarrow> d | Some n \<Rightarrow> take (nat n) d), d)),
      db_add_filtered_message =
        (\<lambda>m d. if down then (Inl ''storage fault'', d) else (Inr (), d)),
      db_mark_messages_processed =
        (\<lambda>ids d. if down then (Inl ''storage fault'', d) else (Inr (), d)),
      db_get_filtered_messages_for_learning =
        (\<lambda>limit d. if down then (Inl ''storage fault'', d) else (Inr [], d)),
      db_get_recent_filtered_messages =
        (\<lambda>group_id limit d. if down then (Inl ''storage fault'', d) else (Inr [], d)),
      db_get_messages_statistics =
        (\<lambda>d. if down then (Inl ''storage fault'', d)
              else (Inr [''raw_messages'' \<mapsto> IntVal (int (length d))], d)),
      db_export_messages_learning_data =
        (\<lambda>d. if down then (Inl ''storage fault'', d)
              else (Inr [''raw_messages'' \<mapsto> IntVal (int (length d))], d)),
      db_clear_all_messages_data =
        (\<lambda>d. if down then (Inl ''storage fault'', d) else (Inr (), [])),
      db_create_learning_batch =
        (\<lambda>name d. if down then (Inl ''storage fault'', d) else (Inr 1, d)),
      db_update_learning_batch =
        (\<lambda>batch_id kwargs d. if down then (Inl ''storage fault'', d) else (Inr (), d))\<rparr>"

definition message_of :: "string \<Rightarrow> message_data" where
  "message_of text =
     [''sender_id'' \<mapsto> StrVal ''u1'', ''message'' \<mapsto> StrVal text, ''timestamp'' \<mapsto> IntVal 0]"

definition rejects_bad :: "message_data \<Rightarrow> bool" where
  "rejects_bad m = (m ''message'' = Some (StrVal ''bad''))"

definition still_clock :: "nat \<Rightarrow> real" where
  "still_clock n = 0"

definition reliable_gateway :: "(message_data list, string) database_manager" where
  "reliable_gateway = memory_gateway (\<lambda>m. False) False"

definition fresh_service :: "message_data list collector" where
  "fresh_service = init still_clock [] []"

definition one_buffered :: "message_data list collector" where
  "one_buffered = fresh_service\<lparr>message_cache := [message_of ''hi'']\<rparr>"

definition picky_gateway :: "(message_data list, string) database_manager" where
  "picky_gateway = memory_gateway rejects_bad False"


definition two_buffered :: "message_data list collector" where
  "two_buffered = fresh_service\<lparr>message_cache := [message_of ''hi'', message_of ''bad'']\<rparr>"

section \<open>The persona update path\<close>

text \<open>
  Modelled from the spec: the Persona Coordinator and the Backup Manager (sections 4.2
  and 4.3). The sources hold only the abstract interfaces \<open>IPersonaManager\<close>,
  \<open>IPersonaUpdater\<close> and \<open>IPersonaBackupManager\<close>; no implementation of them is
  among the sources. What the spec leaves to external collaborators is a parameter:
  whether the Storage Gateway is \<open>available\<close> when the backup is written, the
  function \<open>compute\<close> that derives the new persona (\<open>None\<close> when that step fails), and
  the Quality Monitor's verdict \<open>acceptable\<close> on the state before and after.
\<close>

datatype persona_fault = BackupFault | PersonaUpdateFault | RestoreFault

datatype attempt_state = PENDING | BACKED_UP | APPLIED | COMMITTED | ROLLED_BACK

datatype persona_event = BackupCreated int | PersonaWritten | PersonaRestored int

record 'p persona_store =
  persona :: 'p
  backups :: "(int \<times> 'p \<times> string) list"
  next_backup_id :: int
  history :: "persona_event list"

text \<open>
  Modelled from the spec: the operations of the Backup Manager and of the persona
  manager (sections 4.2 and 4.3) behind the abstract methods \<open>get_backup\<close>,
  \<open>backup_persona\<close>, \<open>update_persona\<close> and \<open>restore_persona\<close>. A backup stores a
  full copy of the current persona under the next identifier; a restore overwrites the
  persona with the snapshot and keeps the backup.
\<close>

definition get_backup :: "int \<Rightarrow> 'p persona_store \<Rightarrow> ('p \<times> string) option" where
  "get_backup backup_id s = map_of (backups s) backup_id"

definition backup_persona ::
  "bool \<Rightarrow> string \<Rightarrow> 'p persona_store \<Rightarrow> (persona_fault + int) \<times> 'p persona_store" where
  "backup_persona available reason s =
     (if \<not> available then (Inl BackupFault, s)
      else (Inr (next_backup_id s),
            s\<lparr>backups := backups s @ [(next_backup_id s, persona s, reason)],
               next_backup_id := next_backup_id s + 1,
               history := history s @ [BackupCreated (next_backup_id s)]\<rparr>))"

definition update_persona ::
  "('p \<Rightarrow> 'p option) \<Rightarrow> 'p persona_store \<Rightarrow> (persona_fault + unit) \<times> 'p persona_store" where
  "update_persona compute s =
     (case compute (persona s) of
        None \<Rightarrow> (Inl PersonaUpdateFault, s)
      | Some p \<Rightarrow> (Inr (), s\<lparr>persona := p, history := history s @ [PersonaWritten]\<rparr>))"

definition restore_persona :: "int \<Rightarrow> 'p persona_store \<Rightarrow> bool \<times> 'p persona_store" where
  "restore_persona backup_id s =
     (case get_backup backup_id s of
        None \<Rightarrow> (False, s)
      | Some (p, reason) \<Rightarrow>
          (True, s\<lparr>persona := p, history := history s @ [PersonaRestored backup_id]\<rparr>))"

text \<open>
  Modelled from the spec: one update attempt of the Persona Coordinator (section 4.3),
  \<open>PENDING \<rightarrow> BACKED_UP \<rightarrow> APPLIED \<rightarrow> {COMMITTED | ROLLED_BACK}\<close>. It returns the
  state the attempt ended in, or the fault that aborted it.
\<close>

definition update_attempt ::
  "bool \<Rightarrow> ('p \<Rightarrow> 'p option) \<Rightarrow> ('p \<Rightarrow> 'p \<Rightarrow> bool) \<Rightarrow> string \<Rightarrow> 'p persona_store
     \<Rightarrow> (persona_fault + attempt_state) \<times> 'p persona_store" where
  "update_attempt available compute acceptable reason s =
     (case backup_persona available reason s of
        (Inl f, s1) \<Rightarrow> (Inl f, s1)
      | (Inr backup_id, s1) \<Rightarrow>
          (case update_persona compute s1 of
             (Inl f, s2) \<Rightarrow> (Inl f, s2)
           | (Inr u, s2) \<Rightarrow>
               if acceptable (persona s1) (persona s2) then (Inr COMMITTED, s2)
               else (case restore_persona backup_id s2 of
                       (True, s3) \<Rightarrow> (Inr ROLLED_BACK, s3)
                     | (False, s3) \<Rightarrow> (Inl RestoreFault, s3))))"

text \<open>Backup identifiers already handed out lie below the next one (invariant I4).\<close>

definition ids_fresh :: "'p persona_store \<Rightarrow> bool" where
  "ids_fresh s = list_all (\<lambda>b. fst b < next_backup_id s) (backups s)"

definition new_store :: "string persona_store" where
  "new_store = \<lparr>persona = ''calm'', backups = [], next_backup_id = 1, history = []\<rparr>"

definition jumping_clock :: "nat \<Rightarrow> real" where
  "jumping_clock n = 31 * real n"

definition three_messages :: "message_data list" where
  "three_messages = [message_of ''hi'', Map.empty, message_of ''yo'']"

definition scenario_messages :: "message_data list" where
  "scenario_messages = replicate 150 (message_of ''hi'')"

section \<open>Basic facts\<close>

lemma missing_field_none: "missing_field fs m = None \<longleftrightarrow> set fs \<subseteq> dom m"
  by (induction fs) auto

lemma flush_empty: "message_cache w = [] \<Longrightarrow> flush_message_cache dm clock w = (Inr (), w)"
  by (simp add: flush_message_cache_def)

lemma flush_ok_drains:
  "fst (flush_message_cache dm clock w) = Inr u
     \<Longrightarrow> message_cache (snd (flush_message_cache dm clock w)) = []"
  by (auto simp: flush_message_cache_def time_time_def Let_def
           split: prod.splits option.splits if_splits)

section \<open>Flushing\<close>

text \<open>
  C7: flushing an empty buffer is a no-op. It returns normally and the service is the
  one it was: no call reaches storage, the flush timer keeps its value, the clock is not
  read. A flush that succeeded has drained the buffer, so a second flush right after it
  changes nothing.
\<close>

theorem flush_empty_noop:
  "(message_cache w = [] \<longrightarrow> flush_message_cache dm clock w = (Inr (), w))
   \<and> (fst (flush_message_cache dm clock w) = Inr ()
        \<longrightarrow> flush_message_cache dm clock (snd (flush_message_cache dm clock w))
              = (Inr (), snd (flush_message_cache dm clock w)))"
  using flush_empty flush_ok_drains by blast

theorem flush_empty_noop_witness:
  "message_cache fresh_service = []
   \<and> flush_message_cache reliable_gateway still_clock fresh_service = (Inr (), fresh_service)
   \<and> fst (flush_message_cache reliable_gateway still_clock one_buffered) = Inr ()
   \<and> flush_message_cache reliable_gateway still_clock
        (snd (flush_message_cache reliable_gateway still_clock one_buffered))
       = (Inr (), snd (flush_message_cache reliable_gateway still_clock one_buffered))"
proof -
  have a: "message_cache fresh_service = []"
    by (simp add: fresh_service_def init_def)
  have b: "fst (flush_message_cache reliable_gateway still_clock one_buffered) = Inr ()"
    by (simp add: flush_message_cache_def one_buffered_def fresh_service_def init_def
                  reliable_gateway_def memory_gateway_def time_time_def)
  show ?thesis
    using a b flush_empty_noop [of fresh_service reliable_gateway still_clock]
          flush_empty_noop [of one_buffered reliable_gateway still_clock]
    by simp
qed

section \<open>Validation\<close>

text \<open>
  C5: a message that lacks one of the fields \<open>sender_id\<close>, \<open>message\<close>, \<open>timestamp\<close>
  (the empty mapping among them) makes \<open>collect_message\<close> return \<open>False\<close>; nothing is
  raised and the service is unchanged: nothing is appended, no call reaches storage.
\<close>

theorem collect_missing_field_rejected:
  "''sender_id'' \<notin> dom m \<or> ''message'' \<notin> dom m \<or> ''timestamp'' \<notin> dom m
     \<Longrightarrow> collect_message dm clock m w = (Inr False, w)"
proof -
  assume a: "''sender_id'' \<notin> dom m \<or> ''message'' \<notin> dom m \<or> ''timestamp'' \<notin> dom m"
  have "missing_field required_fields m \<noteq> None"
    using a unfolding missing_field_none required_fields_def by auto
  then show ?thesis
    by (auto simp: collect_message_def)
qed

theorem collect_missing_field_rejected_witness:
  "''sender_id'' \<notin> dom (Map.empty :: message_data)
   \<and> collect_message reliable_gateway still_clock Map.empty one_buffered = (Inr False, one_buffered)"
  using collect_missing_field_rejected [of Map.empty reliable_gateway still_clock one_buffered]
  by simp

section \<open>Marking messages processed\<close>

text \<open>
  C10: \<open>mark_messages_processed\<close> with an empty list of ids returns normally and leaves
  the service as it was: no call reaches storage, buffer and database are unchanged.
\<close>

theorem mark_nothing_noop:
  "mark_messages_processed dm [] w = (Inr (), w)"
  by (simp add: mark_messages_processed_def)

section \<open>Flush outcomes\<close>

lemma gather_length: "length (fst (gather ts s)) = length ts"
  by (induction ts arbitrary: s) (simp_all add: case_prod_beta)

lemma first_exception_some: "first_exception rs = Some e \<Longrightarrow> Inl e \<in> set rs"
  by (induction rs rule: first_exception.induct) auto

lemma first_exception_none: "first_exception rs = None \<longleftrightarrow> (\<forall>x. Inl x \<notin> set rs)"
  by (induction rs rule: first_exception.induct) auto

lemma flush_calls:
  "calls (snd (flush_message_cache dm clock w)) = calls w @ map SaveRawMessage (message_cache w)"
  by (auto simp: flush_message_cache_def time_time_def Let_def split: prod.splits option.splits)

lemma flush_failed:
  assumes "first_exception (write_outcomes dm w) = Some e"
  shows "fst (flush_message_cache dm clock w) = Inl (DataStorageError FlushCache (Raised e))"
    and "message_cache (snd (flush_message_cache dm clock w)) = message_cache w"
    and "last_flush_time (snd (flush_message_cache dm clock w)) = last_flush_time w"
    and "clock_reads (snd (flush_message_cache dm clock w)) = clock_reads w"
  using assms
  by (auto simp: flush_message_cache_def write_outcomes_def Let_def split: prod.splits)

lemma flush_succeeded:
  assumes "first_exception (write_outcomes dm w) = None" "message_cache w \<noteq> []"
  shows "fst (flush_message_cache dm clock w) = Inr ()"
    and "message_cache (snd (flush_message_cache dm clock w)) = []"
    and "last_flush_time (snd (flush_message_cache dm clock w)) = clock (clock_reads w)"
    and "clock_reads (snd (flush_message_cache dm clock w)) = Suc (clock_reads w)"
  using assms
  by (auto simp: flush_message_cache_def write_outcomes_def time_time_def Let_def split: prod.splits)

lemma flush_static:
  "cache_size_limit (snd (flush_message_cache dm clock w)) = cache_size_limit w"
  "flush_interval (snd (flush_message_cache dm clock w)) = flush_interval w"
  "config (snd (flush_message_cache dm clock w)) = config w"
  by (auto simp: flush_message_cache_def time_time_def Let_def split: prod.splits option.splits)

text \<open>
  C1: when one of the writes of a flush fails, the flush fails: its caller gets a
  \<open>DataStorageError\<close> whose cause is an exception that one of the writes raised, the
  buffer holds what it held, the flush timer is not reset, and the next flush issues a
  write for every message that was buffered, whatever was stored by the first attempt.
\<close>

theorem flush_failure_keeps_buffer:
  assumes "\<exists>x. Inl x \<in> set (write_outcomes dm w)"
  shows "(\<exists>x. Inl x \<in> set (write_outcomes dm w)
            \<and> fst (flush_message_cache dm clock w) = Inl (DataStorageError FlushCache (Raised x)))
       \<and> message_cache (snd (flush_message_cache dm clock w)) = message_cache w
       \<and> last_flush_time (snd (flush_message_cache dm clock w)) = last_flush_time w
       \<and> calls (snd (flush_message_cache dm clock (snd (flush_message_cache dm clock w))))
           = calls (snd (flush_message_cache dm clock w)) @ map SaveRawMessage (message_cache w)"
proof -
  from assms obtain e where e: "first_exception (write_outcomes dm w) = Some e"
    using first_exception_none [of "write_outcomes dm w"] by (cases "first_exception (write_outcomes dm w)") auto
  have "Inl e \<in> set (write_outcomes dm w)" using e by (rule first_exception_some)
  moreover note flush_failed [OF e, of clock]
  moreover have "calls (snd (flush_message_cache dm clock (snd (flush_message_cache dm clock w))))
           = calls (snd (flush_message_cache dm clock w)) @ map SaveRawMessage (message_cache (snd (flush_message_cache dm clock w)))"
    by (rule flush_calls)
  ultimately show ?thesis by auto
qed


theorem flush_failure_keeps_buffer_witness:
  "(\<exists>x. Inl x \<in> set (write_outcomes picky_gateway two_buffered))
   \<and> fst (flush_message_cache picky_gateway still_clock two_buffered)
       = Inl (DataStorageError FlushCache (Raised ''storage fault''))
   \<and> message_cache (snd (flush_message_cache picky_gateway still_clock two_buffered))
       = message_cache two_buffered
   \<and> calls (snd (flush_message_cache picky_gateway still_clock
                    (snd (flush_message_cache picky_gateway still_clock two_buffered))))
       = calls (snd (flush_message_cache picky_gateway still_clock two_buffered))
         @ map SaveRawMessage (message_cache two_buffered)"
proof -
  have o: "write_outcomes picky_gateway two_buffered = [Inr (), Inl ''storage fault'']"
    by (simp add: write_outcomes_def picky_gateway_def memory_gateway_def two_buffered_def
                  fresh_service_def init_def rejects_bad_def message_of_def)
  have h: "\<exists>x. Inl x \<in> set (write_outcomes picky_gateway two_buffered)"
    unfolding o by simp
  have f: "fst (flush_message_cache picky_gateway still_clock two_buffered)
       = Inl (DataStorageError FlushCache (Raised ''storage fault''))"
    using flush_failure_keeps_buffer [OF h, of still_clock] unfolding o by auto
  show ?thesis
    using h f flush_failure_keeps_buffer [OF h, of still_clock] by simp
qed

lemma flush_in_collect_calls:
  "calls (snd (flush_in_collect dm clock w)) = calls w @ map SaveRawMessage (message_cache w)"
  using flush_calls [of dm clock w]
  by (auto simp: flush_in_collect_def split: prod.splits sum.splits)

lemma flush_in_collect_ok:
  assumes "fst (flush_in_collect dm clock w) = Inr True" "message_cache w \<noteq> []"
  shows "message_cache (snd (flush_in_collect dm clock w)) = []"
    and "last_flush_time (snd (flush_in_collect dm clock w)) = clock (clock_reads w)"
    and "clock_reads (snd (flush_in_collect dm clock w)) = Suc (clock_reads w)"
proof -
  have n: "first_exception (write_outcomes dm w) = None"
  proof (cases "first_exception (write_outcomes dm w)")
    case (Some e)
    from flush_failed(1) [OF Some, of clock] assms(1) show ?thesis
      by (auto simp: flush_in_collect_def split: prod.splits sum.splits)
  qed simp
  from flush_succeeded [OF n assms(2), of clock]
  show "message_cache (snd (flush_in_collect dm clock w)) = []"
    and "last_flush_time (snd (flush_in_collect dm clock w)) = clock (clock_reads w)"
    and "clock_reads (snd (flush_in_collect dm clock w)) = Suc (clock_reads w)"
    by (auto simp: flush_in_collect_def split: prod.splits sum.splits)
qed

lemma flush_in_collect_raised:
  assumes "fst (flush_in_collect dm clock w) \<noteq> Inr True"
  shows "\<exists>x. fst (flush_in_collect dm clock w)
               = Inl (MessageCollectionError (DataStorageError FlushCache (Raised x)))"
    and "message_cache (snd (flush_in_collect dm clock w)) = message_cache w"
    and "last_flush_time (snd (flush_in_collect dm clock w)) = last_flush_time w"
proof -
  obtain e where e: "first_exception (write_outcomes dm w) = Some e"
  proof (cases "first_exception (write_outcomes dm w)")
    case None
    show ?thesis
    proof (cases "message_cache w = []")
      case True
      with assms show ?thesis by (simp add: flush_in_collect_def flush_empty)
    next
      case False
      from flush_succeeded(1) [OF None False, of clock] assms show ?thesis
        by (auto simp: flush_in_collect_def split: prod.splits sum.splits)
    qed
  qed simp
  from flush_failed [OF e, of clock]
  show "\<exists>x. fst (flush_in_collect dm clock w)
               = Inl (MessageCollectionError (DataStorageError FlushCache (Raised x)))"
    and "message_cache (snd (flush_in_collect dm clock w)) = message_cache w"
    and "last_flush_time (snd (flush_in_collect dm clock w)) = last_flush_time w"
    by (auto simp: flush_in_collect_def split: prod.splits sum.splits)
qed

lemma collect_valid_unfold:
  assumes "{''sender_id'', ''message'', ''timestamp''} \<subseteq> dom m"
  shows "collect_message dm clock m w =
     (if cache_size_limit w \<le> Suc (length (message_cache w))
      then flush_in_collect dm clock (w\<lparr>message_cache := message_cache w @ [m]\<rparr>)
      else if clock (clock_reads w) - last_flush_time w > flush_interval w
      then flush_in_collect dm clock
             (w\<lparr>message_cache := message_cache w @ [m], clock_reads := Suc (clock_reads w)\<rparr>)
      else (Inr True, w\<lparr>message_cache := message_cache w @ [m], clock_reads := Suc (clock_reads w)\<rparr>))"
proof -
  have "missing_field required_fields m = None"
    using assms unfolding missing_field_none required_fields_def by simp
  then show ?thesis
    by (simp add: collect_message_def time_time_def Let_def)
qed

section \<open>Collecting\<close>

text \<open>
  C2: for a message that passes validation, \<open>collect_message\<close> appends it and then,
  within the same call, flushes exactly when the buffer has reached the size limit or
  the time since the last flush exceeds the interval (\<open>due\<close>): the calls that reach
  storage during the call are the writes of the whole buffer when the flush is due and
  none otherwise. When no flush is due the call returns \<open>True\<close> with the message
  buffered; when it is due the call returns \<open>True\<close> with the buffer drained and the
  timer set to the clock reading just taken, or raises with the buffer kept. The
  defaults set at construction are 100 messages and 30 seconds. Nothing but an
  operation of the service changes its state: there is no timer beside this check.
\<close>

theorem collect_flush_trigger:
  assumes valid: "{''sender_id'', ''message'', ''timestamp''} \<subseteq> dom m"
      and due: "due = (cache_size_limit w \<le> length (message_cache w @ [m])
                       \<or> clock (clock_reads w) - last_flush_time w > flush_interval w)"
      and r: "r = collect_message dm clock m w"
  shows "calls (snd r) = calls w @ (if due then map SaveRawMessage (message_cache w @ [m]) else [])
       \<and> (\<not> due \<longrightarrow> fst r = Inr True \<and> message_cache (snd r) = message_cache w @ [m]
                      \<and> last_flush_time (snd r) = last_flush_time w)
       \<and> (due \<and> fst r = Inr True \<longrightarrow>
             message_cache (snd r) = [] \<and> last_flush_time (snd r) = clock (clock_reads (snd r) - 1))
       \<and> (due \<and> fst r \<noteq> Inr True \<longrightarrow>
             (\<exists>x. fst r = Inl (MessageCollectionError (DataStorageError FlushCache (Raised x))))
             \<and> message_cache (snd r) = message_cache w @ [m]
             \<and> last_flush_time (snd r) = last_flush_time w)
       \<and> cache_size_limit (init clock cfg d) = 100 \<and> flush_interval (init clock cfg d) = 30"
proof (cases "cache_size_limit w \<le> Suc (length (message_cache w))")
  case True
  let ?w1 = "w\<lparr>message_cache := message_cache w @ [m]\<rparr>"
  have r': "r = flush_in_collect dm clock ?w1"
    using True r by (simp add: collect_valid_unfold [OF valid])
  have d: "due" using True due by simp
  have ne: "message_cache ?w1 \<noteq> []" by simp
  show ?thesis
    using d flush_in_collect_calls [of dm clock ?w1]
      flush_in_collect_ok [OF _ ne, of dm clock] flush_in_collect_raised [of dm clock ?w1]
    unfolding r' by (auto simp: init_def)
next
  case False
  note small = False
  show ?thesis
  proof (cases "clock (clock_reads w) - last_flush_time w > flush_interval w")
    case True
    let ?w1 = "w\<lparr>message_cache := message_cache w @ [m], clock_reads := Suc (clock_reads w)\<rparr>"
    have r': "r = flush_in_collect dm clock ?w1"
      using True small r by (simp add: collect_valid_unfold [OF valid])
    have d: "due" using True due by simp
    have ne: "message_cache ?w1 \<noteq> []" by simp
    show ?thesis
      using d flush_in_collect_calls [of dm clock ?w1]
        flush_in_collect_ok [OF _ ne, of dm clock] flush_in_collect_raised [of dm clock ?w1]
      unfolding r' by (auto simp: init_def)
  next
    case False
    have r': "r = (Inr True, w\<lparr>message_cache := message_cache w @ [m], clock_reads := Suc (clock_reads w)\<rparr>)"
      using False small r by (simp add: collect_valid_unfold [OF valid])
    have d: "\<not> due" using False small due by simp
    show ?thesis using d unfolding r' by (simp add: init_def)
  qed
qed


theorem collect_flush_trigger_witness:
  "{''sender_id'', ''message'', ''timestamp''} \<subseteq> dom (message_of ''hi'')
   \<and> calls (snd (collect_message reliable_gateway still_clock (message_of ''hi'') fresh_service)) = []
   \<and> fst (collect_message reliable_gateway still_clock (message_of ''hi'') fresh_service) = Inr True
   \<and> calls (snd (collect_message reliable_gateway still_clock (message_of ''hi'')
                    (fresh_service\<lparr>cache_size_limit := 1\<rparr>)))
       = [SaveRawMessage (message_of ''hi'')]"
proof -
  have v: "{''sender_id'', ''message'', ''timestamp''} \<subseteq> dom (message_of ''hi'')"
    by (simp add: message_of_def)
  have a: "\<not> (cache_size_limit fresh_service \<le> length (message_cache fresh_service @ [message_of ''hi''])
            \<or> still_clock (clock_reads fresh_service) - last_flush_time fresh_service
                > flush_interval fresh_service)"
    by (simp add: fresh_service_def init_def still_clock_def)
  have b: "cache_size_limit (fresh_service\<lparr>cache_size_limit := 1\<rparr>)
             \<le> length (message_cache (fresh_service\<lparr>cache_size_limit := 1\<rparr>) @ [message_of ''hi''])"
    by (simp add: fresh_service_def init_def)
  show ?thesis
    using v a b
      collect_flush_trigger [OF v refl refl, where w = fresh_service and clock = still_clock
                                                 and dm = reliable_gateway]
      collect_flush_trigger [OF v refl refl, where w = "fresh_service\<lparr>cache_size_limit := 1\<rparr>"
                                                 and clock = still_clock and dm = reliable_gateway]
    by (simp add: fresh_service_def init_def)
qed

section \<open>Backup before mutation\<close>

lemma backup_fresh_lookup:
  assumes "ids_fresh s"
  shows "map_of (backups s @ [(next_backup_id s, p, r)]) (next_backup_id s) = Some (p, r)"
proof -
  have "next_backup_id s \<notin> fst ` set (backups s)"
    using assms by (auto simp: ids_fresh_def list_all_iff)
  then have "map_of (backups s) (next_backup_id s) = None"
    by (simp add: map_of_eq_None_iff)
  then show ?thesis by (simp add: map_add_def)
qed

text \<open>
  C8: in every update attempt the backup comes first. When the backup cannot be
  created the attempt aborts with \<open>BackupFault\<close> and the store, the persona in it, is
  unchanged. Otherwise the events of the attempt start with the creation of a backup
  whose id is the one returned, no second backup is made, every write or restore of the
  persona comes after it, and \<open>get_backup\<close> on that id returns the persona as it was
  before the attempt, with the reason given.
\<close>

theorem backup_before_mutation:
  assumes fresh: "ids_fresh s"
      and r: "r = update_attempt available compute acceptable reason s"
  shows "(\<not> available \<longrightarrow> r = (Inl BackupFault, s))
       \<and> (\<exists>new. history (snd r) = history s @ new
             \<and> (new = [] \<and> persona (snd r) = persona s
                \<or> (\<exists>rest. new = BackupCreated (next_backup_id s) # rest
                      \<and> BackupCreated (next_backup_id s) \<notin> set rest
                      \<and> get_backup (next_backup_id s) (snd r) = Some (persona s, reason))))"
proof (cases available)
  case False
  then show ?thesis using r by (simp add: update_attempt_def backup_persona_def)
next
  case True
  have look: "map_of (backups s @ [(next_backup_id s, persona s, reason)]) (next_backup_id s)
                = Some (persona s, reason)"
    using fresh by (rule backup_fresh_lookup)
  show ?thesis
    using True r look
    by (auto simp: update_attempt_def backup_persona_def update_persona_def restore_persona_def
                   get_backup_def split: option.splits prod.splits bool.splits)
qed

theorem backup_before_mutation_witness:
  "ids_fresh new_store
   \<and> update_attempt False (\<lambda>p. Some ''rude'') (\<lambda>a b. False) ''pre-update'' new_store
       = (Inl BackupFault, new_store)
   \<and> history (snd (update_attempt True (\<lambda>p. Some ''rude'') (\<lambda>a b. False) ''pre-update'' new_store))
       = [BackupCreated 1, PersonaWritten, PersonaRestored 1]"
proof -
  have f: "ids_fresh new_store" by (simp add: ids_fresh_def new_store_def)
  have h: "history (snd (update_attempt True (\<lambda>p. Some ''rude'') (\<lambda>a b. False) ''pre-update'' new_store))
       = [BackupCreated 1, PersonaWritten, PersonaRestored 1]"
    by (simp add: update_attempt_def backup_persona_def update_persona_def restore_persona_def
                   get_backup_def new_store_def)
  show ?thesis
    using f h backup_before_mutation [OF f refl, of False "\<lambda>p. Some ''rude''" "\<lambda>a b. False" "''pre-update''"]
    by simp
qed

section \<open>The buffer stays below the size limit\<close>

lemma flush_in_collect_static:
  "cache_size_limit (snd (flush_in_collect dm clock w)) = cache_size_limit w"
  "flush_interval (snd (flush_in_collect dm clock w)) = flush_interval w"
  using flush_static(1,2) [of dm clock w]
  by (auto simp: flush_in_collect_def split: prod.splits sum.splits)

lemma flush_in_collect_result:
  "\<not> is_exception (fst (flush_in_collect dm clock w)) \<Longrightarrow> fst (flush_in_collect dm clock w) = Inr True"
  by (auto simp: flush_in_collect_def is_exception_def split: prod.splits sum.splits)

lemma collect_keeps_limit:
  "cache_size_limit (snd (collect_message dm clock m w)) = cache_size_limit w"
  "flush_interval (snd (collect_message dm clock m w)) = flush_interval w"
  by (auto simp: collect_message_def time_time_def Let_def flush_in_collect_static
           split: option.splits)

lemma collect_returned_below:
  assumes ok: "\<not> is_exception (fst (collect_message dm clock m w))"
      and inv: "length (message_cache w) < cache_size_limit w"
  shows "length (message_cache (snd (collect_message dm clock m w))) < cache_size_limit w"
proof (cases "{''sender_id'', ''message'', ''timestamp''} \<subseteq> dom m")
  case False
  then have "collect_message dm clock m w = (Inr False, w)"
    using missing_field_none [of required_fields m]
    by (auto simp: collect_message_def required_fields_def split: option.splits)
  then show ?thesis using inv by simp
next
  case True
  note u = collect_valid_unfold [OF True, of dm clock w]
  let ?w1 = "w\<lparr>message_cache := message_cache w @ [m]\<rparr>"
  let ?w2 = "w\<lparr>message_cache := message_cache w @ [m], clock_reads := Suc (clock_reads w)\<rparr>"
  consider (size) "cache_size_limit w \<le> Suc (length (message_cache w))"
    | (time) "\<not> cache_size_limit w \<le> Suc (length (message_cache w))"
             "clock (clock_reads w) - last_flush_time w > flush_interval w"
    | (none) "\<not> cache_size_limit w \<le> Suc (length (message_cache w))"
             "\<not> clock (clock_reads w) - last_flush_time w > flush_interval w"
    by blast
  then show ?thesis
  proof cases
    case size
    then have c: "collect_message dm clock m w = flush_in_collect dm clock ?w1" using u by simp
    have "fst (flush_in_collect dm clock ?w1) = Inr True"
      using ok unfolding c by (rule flush_in_collect_result)
    from flush_in_collect_ok(1) [OF this] show ?thesis using inv unfolding c by simp
  next
    case time
    then have c: "collect_message dm clock m w = flush_in_collect dm clock ?w2" using u by simp
    have "fst (flush_in_collect dm clock ?w2) = Inr True"
      using ok unfolding c by (rule flush_in_collect_result)
    from flush_in_collect_ok(1) [OF this] show ?thesis using inv unfolding c by simp
  next
    case none
    then have c: "collect_message dm clock m w = (Inr True, ?w2)" using u by simp
    show ?thesis using none(1) unfolding c by simp
  qed
qed

lemma collect_all_below:
  assumes "\<forall>r\<in>set (fst (collect_all dm clock ms w)). \<not> is_exception r"
      and "length (message_cache w) < cache_size_limit w"
  shows "length (message_cache (snd (collect_all dm clock ms w))) < cache_size_limit w"
  using assms
proof (induction ms arbitrary: w)
  case Nil
  then show ?case by simp
next
  case (Cons m ms)
  let ?w' = "snd (collect_message dm clock m w)"
  have fs: "fst (collect_all dm clock (m # ms) w)
              = fst (collect_message dm clock m w) # fst (collect_all dm clock ms ?w')"
    and sn: "snd (collect_all dm clock (m # ms) w) = snd (collect_all dm clock ms ?w')"
    by (simp_all add: case_prod_beta)
  have ok: "\<not> is_exception (fst (collect_message dm clock m w))"
    and rest: "\<forall>r\<in>set (fst (collect_all dm clock ms ?w')). \<not> is_exception r"
    using Cons.prems(1) unfolding fs by simp_all
  have "length (message_cache ?w') < cache_size_limit ?w'"
    using collect_returned_below [OF ok Cons.prems(2)] by (simp add: collect_keeps_limit)
  from Cons.IH [OF rest this] show ?case
    unfolding sn by (simp add: collect_keeps_limit)
qed

lemma collect_all_take:
  "fst (collect_all dm clock (take k ms) w) = take k (fst (collect_all dm clock ms w))"
proof (induction ms arbitrary: w k)
  case Nil
  then show ?case by simp
next
  case (Cons m ms)
  show ?case
  proof (cases k)
    case 0
    then show ?thesis by simp
  next
    case (Suc j)
    then show ?thesis using Cons.IH by (simp add: case_prod_beta)
  qed
qed

text \<open>
  C9: in a run of \<open>collect_message\<close> calls on a freshly constructed service in which
  no call raised, the buffer holds fewer than 100 messages after every call. A call
  raises only when a write of the flush it triggered fails, so this covers every run in
  which those writes succeed; the messages are arbitrary, valid or not, and so is the
  clock.
\<close>

theorem buffer_below_limit:
  assumes "\<forall>r\<in>set (fst (collect_all dm clock ms (init clock cfg d))). \<not> is_exception r"
  shows "\<forall>k. length (message_cache (snd (collect_all dm clock (take k ms) (init clock cfg d)))) < 100"
proof
  fix k
  have "\<forall>r\<in>set (fst (collect_all dm clock (take k ms) (init clock cfg d))). \<not> is_exception r"
    using assms unfolding collect_all_take by (meson in_set_takeD)
  moreover have "length (message_cache (init clock cfg d)) < cache_size_limit (init clock cfg d)"
    by (simp add: init_def)
  ultimately have "length (message_cache (snd (collect_all dm clock (take k ms) (init clock cfg d))))
                     < cache_size_limit (init clock cfg d)"
    by (rule collect_all_below)
  then show "length (message_cache (snd (collect_all dm clock (take k ms) (init clock cfg d)))) < 100"
    by (simp add: init_def)
qed

theorem buffer_below_limit_witness:
  "fst (collect_all reliable_gateway jumping_clock three_messages (init jumping_clock [] []))
     = [Inr True, Inr False, Inr True]
   \<and> length (message_cache (snd (collect_all reliable_gateway jumping_clock (take 3 three_messages)
                                    (init jumping_clock [] [])))) < 100"
proof -
  have o: "fst (collect_all reliable_gateway jumping_clock three_messages (init jumping_clock [] []))
             = [Inr True, Inr False, Inr True]"
    by (simp add: three_messages_def collect_message_def required_fields_def message_of_def
                  init_def jumping_clock_def time_time_def flush_in_collect_def
                  flush_message_cache_def reliable_gateway_def memory_gateway_def)
  have h: "\<forall>r\<in>set (fst (collect_all reliable_gateway jumping_clock three_messages
                              (init jumping_clock [] []))). \<not> is_exception r"
    unfolding o by (simp add: is_exception_def)
  show ?thesis
    using o buffer_below_limit [OF h] by simp
qed

section \<open>The 150 message scenario\<close>

lemma gather_writes_ok:
  "writes_succeed dm \<Longrightarrow> first_exception (fst (gather (map (db_save_raw_message dm) ms) d)) = None"
  by (induction ms arbitrary: d) (simp_all add: case_prod_beta writes_succeed_def)

lemma writes_succeed_outcomes:
  "writes_succeed dm \<Longrightarrow> first_exception (write_outcomes dm w) = None"
  by (simp add: write_outcomes_def gather_writes_ok)

lemma flush_in_collect_succeeds:
  assumes "writes_succeed dm" "message_cache w \<noteq> []"
  shows "fst (flush_in_collect dm clock w) = Inr True"
  using flush_succeeded(1) [OF writes_succeed_outcomes [OF assms(1)] assms(2), of clock]
  by (auto simp: flush_in_collect_def split: prod.splits sum.splits)

text \<open>A stretch of calls during which no flush is due.\<close>

lemma collect_all_quiet:
  assumes "\<forall>m\<in>set ms. {''sender_id'', ''message'', ''timestamp''} \<subseteq> dom m"
      and "length (message_cache w) + length ms < cache_size_limit w"
      and "\<forall>i. clock i - last_flush_time w \<le> flush_interval w"
  shows "message_cache (snd (collect_all dm clock ms w)) = message_cache w @ ms
       \<and> calls (snd (collect_all dm clock ms w)) = calls w
       \<and> last_flush_time (snd (collect_all dm clock ms w)) = last_flush_time w
       \<and> cache_size_limit (snd (collect_all dm clock ms w)) = cache_size_limit w
       \<and> flush_interval (snd (collect_all dm clock ms w)) = flush_interval w"
  using assms
proof (induction ms arbitrary: w)
  case Nil
  then show ?case by simp
next
  case (Cons m ms)
  let ?w' = "w\<lparr>message_cache := message_cache w @ [m], clock_reads := Suc (clock_reads w)\<rparr>"
  have v: "{''sender_id'', ''message'', ''timestamp''} \<subseteq> dom m" using Cons.prems(1) by simp
  have nt: "\<not> clock (clock_reads w) - last_flush_time w > flush_interval w"
    using Cons.prems(3) by (simp add: not_less)
  have c: "collect_message dm clock m w = (Inr True, ?w')"
    using Cons.prems(2) nt by (simp add: collect_valid_unfold [OF v])
  have sn: "snd (collect_all dm clock (m # ms) w) = snd (collect_all dm clock ms ?w')"
    by (simp add: c case_prod_beta)
  have "message_cache (snd (collect_all dm clock ms ?w')) = message_cache ?w' @ ms
       \<and> calls (snd (collect_all dm clock ms ?w')) = calls ?w'
       \<and> last_flush_time (snd (collect_all dm clock ms ?w')) = last_flush_time ?w'
       \<and> cache_size_limit (snd (collect_all dm clock ms ?w')) = cache_size_limit ?w'
       \<and> flush_interval (snd (collect_all dm clock ms ?w')) = flush_interval ?w'"
    using Cons.prems by (intro Cons.IH) simp_all
  then show ?case unfolding sn by simp
qed

text \<open>The call that fills the buffer, with storage accepting every write.\<close>

lemma collect_fills:
  assumes v: "{''sender_id'', ''message'', ''timestamp''} \<subseteq> dom m"
      and full: "cache_size_limit w \<le> Suc (length (message_cache w))"
      and ok: "writes_succeed dm"
  shows "message_cache (snd (collect_message dm clock m w)) = []
       \<and> calls (snd (collect_message dm clock m w)) = calls w @ map SaveRawMessage (message_cache w @ [m])
       \<and> last_flush_time (snd (collect_message dm clock m w)) = clock (clock_reads w)
       \<and> cache_size_limit (snd (collect_message dm clock m w)) = cache_size_limit w
       \<and> flush_interval (snd (collect_message dm clock m w)) = flush_interval w"
proof -
  let ?w1 = "w\<lparr>message_cache := message_cache w @ [m]\<rparr>"
  have c: "collect_message dm clock m w = flush_in_collect dm clock ?w1"
    using full by (simp add: collect_valid_unfold [OF v])
  have ne: "message_cache ?w1 \<noteq> []" by simp
  have t: "fst (flush_in_collect dm clock ?w1) = Inr True"
    using ok ne by (rule flush_in_collect_succeeds)
  show ?thesis
    unfolding c
    using flush_in_collect_ok(1,2) [OF t ne] flush_in_collect_calls [of dm clock ?w1]
    by (simp add: flush_in_collect_static)
qed

lemma collect_all_snd_append:
  "snd (collect_all dm clock (xs @ ys) w) = snd (collect_all dm clock ys (snd (collect_all dm clock xs w)))"
  by (induction xs arbitrary: w) (simp_all add: case_prod_beta)

lemma collect_all_single:
  "snd (collect_all dm clock [m] w) = snd (collect_message dm clock m w)"
  by (simp add: case_prod_beta)


lemma flush_writes_succeed:
  assumes "writes_succeed dm"
  shows "fst (flush_message_cache dm clock w) = Inr ()"
    and "message_cache (snd (flush_message_cache dm clock w)) = []"
proof -
  show "fst (flush_message_cache dm clock w) = Inr ()"
  proof (cases "message_cache w = []")
    case True
    then show ?thesis by (simp add: flush_empty)
  next
    case False
    from flush_succeeded(1) [OF writes_succeed_outcomes [OF assms] False] show ?thesis .
  qed
  then show "message_cache (snd (flush_message_cache dm clock w)) = []"
    by (rule flush_ok_drains)
qed

lemma get_statistics_flushed:
  assumes "writes_succeed dm"
  shows "message_cache (snd (get_statistics dm clock w)) = []"
    and "calls (snd (get_statistics dm clock w))
           = calls w @ map SaveRawMessage (message_cache w) @ [GetMessagesStatistics]"
    and "reported_cache_size (fst (get_statistics dm clock w))
           = (if is_exception (fst (db_get_messages_statistics dm
                                      (database (snd (flush_message_cache dm clock w)))))
              then None else Some (IntVal 0))"
  using flush_writes_succeed [OF assms, of clock w] flush_calls [of dm clock w]
  by (auto simp: get_statistics_def db_call_def reported_cache_size_def is_exception_def
           split: prod.splits sum.splits)

lemma scenario_run:
  assumes len: "length ms = 150"
      and valid: "\<forall>m\<in>set ms. {''sender_id'', ''message'', ''timestamp''} \<subseteq> dom m"
      and ok: "writes_succeed dm"
      and still: "\<forall>i j. clock i - clock j \<le> 30"
  shows "k < 100 \<Longrightarrow>
           calls (snd (collect_all dm clock (take k ms) (init clock cfg d))) = []
           \<and> message_cache (snd (collect_all dm clock (take k ms) (init clock cfg d))) = take k ms"
    and "100 \<le> k \<Longrightarrow> k \<le> 150 \<Longrightarrow>
           calls (snd (collect_all dm clock (take k ms) (init clock cfg d)))
             = map SaveRawMessage (take 100 ms)
           \<and> message_cache (snd (collect_all dm clock (take k ms) (init clock cfg d)))
             = take (k - 100) (drop 100 ms)"
proof -
  let ?w0 = "init clock cfg d"
  have quiet0: "\<forall>i. clock i - last_flush_time ?w0 \<le> flush_interval ?w0"
    using still by (simp add: init_def)
  have phase1: "message_cache (snd (collect_all dm clock (take j ms) ?w0)) = take j ms
       \<and> calls (snd (collect_all dm clock (take j ms) ?w0)) = []
       \<and> last_flush_time (snd (collect_all dm clock (take j ms) ?w0)) = clock 0
       \<and> cache_size_limit (snd (collect_all dm clock (take j ms) ?w0)) = 100
       \<and> flush_interval (snd (collect_all dm clock (take j ms) ?w0)) = 30" if "j < 100" for j
  proof -
    have v: "\<forall>m\<in>set (take j ms). {''sender_id'', ''message'', ''timestamp''} \<subseteq> dom m"
      using valid by (meson in_set_takeD)
    have l: "length (message_cache ?w0) + length (take j ms) < cache_size_limit ?w0"
      using that len by (simp add: init_def)
    from collect_all_quiet [OF v l quiet0, of dm] show ?thesis by (simp add: init_def)
  qed
  show "k < 100 \<Longrightarrow>
           calls (snd (collect_all dm clock (take k ms) ?w0)) = []
           \<and> message_cache (snd (collect_all dm clock (take k ms) ?w0)) = take k ms"
    using phase1 [of k] by simp
  let ?w99 = "snd (collect_all dm clock (take 99 ms) ?w0)"
  let ?w100 = "snd (collect_message dm clock (ms ! 99) ?w99)"
  have t100: "take 100 ms = take 99 ms @ [ms ! 99]"
    using len take_Suc_conv_app_nth [of 99 ms] by simp
  have run100: "snd (collect_all dm clock (take 100 ms) ?w0) = ?w100"
    unfolding t100 collect_all_snd_append collect_all_single ..
  have v99: "{''sender_id'', ''message'', ''timestamp''} \<subseteq> dom (ms ! 99)"
    using valid len by simp
  have full: "cache_size_limit ?w99 \<le> Suc (length (message_cache ?w99))"
    using phase1 [of 99] len by simp
  have at100: "message_cache ?w100 = []
       \<and> calls ?w100 = map SaveRawMessage (take 100 ms)
       \<and> (\<exists>j. last_flush_time ?w100 = clock j)
       \<and> cache_size_limit ?w100 = 100
       \<and> flush_interval ?w100 = 30"
    using collect_fills [OF v99 full ok, of clock] phase1 [of 99] by (auto simp: t100)
  show "calls (snd (collect_all dm clock (take k ms) ?w0)) = map SaveRawMessage (take 100 ms)
           \<and> message_cache (snd (collect_all dm clock (take k ms) ?w0))
             = take (k - 100) (drop 100 ms)" if "100 \<le> k" "k \<le> 150"
  proof -
    let ?rest = "take (k - 100) (drop 100 ms)"
    have tk: "take k ms = take 100 ms @ ?rest"
      using that take_add [of 100 "k - 100" ms] by simp
    have runk: "snd (collect_all dm clock (take k ms) ?w0) = snd (collect_all dm clock ?rest ?w100)"
      unfolding tk collect_all_snd_append run100 ..
    have v: "\<forall>m\<in>set ?rest. {''sender_id'', ''message'', ''timestamp''} \<subseteq> dom m"
      using valid by (meson in_set_takeD in_set_dropD)
    have l: "length (message_cache ?w100) + length ?rest < cache_size_limit ?w100"
      using at100 that len by simp
    have q: "\<forall>i. clock i - last_flush_time ?w100 \<le> flush_interval ?w100"
      using at100 still by auto
    from collect_all_quiet [OF v l q, of dm] show ?thesis
      unfolding runk using at100 by simp
  qed
qed



lemma reliable_writes_succeed: "writes_succeed reliable_gateway"
  by (simp add: writes_succeed_def reliable_gateway_def memory_gateway_def)

lemma reliable_statistics_ok:
  "\<not> is_exception (fst (db_get_messages_statistics reliable_gateway d))"
  by (simp add: is_exception_def reliable_gateway_def memory_gateway_def)

lemma scenario_messages_valid:
  "\<forall>m\<in>set scenario_messages. {''sender_id'', ''message'', ''timestamp''} \<subseteq> dom m"
  by (simp add: scenario_messages_def message_of_def)

lemma still_clock_still: "\<forall>i j. still_clock i - still_clock j \<le> 30"
  by (simp add: still_clock_def)

text \<open>
  C4, as the code has it: on a freshly constructed service (size limit 100), with storage
  accepting every write and clock readings never more than the interval apart, 150 calls
  of \<open>collect_message\<close> with valid messages reach storage exactly once: nothing is
  written during the first 99 calls, the 100th writes the first 100 messages, and nothing
  more is written up to the 150th, after which the last 50 messages are buffered. A
  \<open>get_statistics\<close> call made then flushes first: it writes those 50 messages, leaves
  the buffer empty and reports \<open>cache_size\<close> 0 (or returns the empty mapping, when the
  statistics query fails).
\<close>

theorem collect_150_then_statistics:
  assumes len: "length ms = 150"
      and valid: "\<forall>m\<in>set ms. {''sender_id'', ''message'', ''timestamp''} \<subseteq> dom m"
      and ok: "writes_succeed dm"
      and still: "\<forall>i j. clock i - clock j \<le> 30"
      and w: "w = snd (collect_all dm clock ms (init clock cfg d))"
  shows "(\<forall>k<100. calls (snd (collect_all dm clock (take k ms) (init clock cfg d))) = [])
       \<and> (\<forall>k. 100 \<le> k \<and> k \<le> 150 \<longrightarrow>
              calls (snd (collect_all dm clock (take k ms) (init clock cfg d)))
                = map SaveRawMessage (take 100 ms))
       \<and> message_cache w = drop 100 ms \<and> length (message_cache w) = 50
       \<and> calls (snd (get_statistics dm clock w))
           = map SaveRawMessage (take 100 ms) @ map SaveRawMessage (drop 100 ms)
             @ [GetMessagesStatistics]
       \<and> message_cache (snd (get_statistics dm clock w)) = []
       \<and> reported_cache_size (fst (get_statistics dm clock w))
           = (if is_exception (fst (db_get_messages_statistics dm
                                      (database (snd (flush_message_cache dm clock w)))))
              then None else Some (IntVal 0))"
proof -
  note run = scenario_run [OF len valid ok still, of _ cfg d]
  have a: "\<forall>k<100. calls (snd (collect_all dm clock (take k ms) (init clock cfg d))) = []"
    using run(1) by simp
  have b: "\<forall>k. 100 \<le> k \<and> k \<le> 150 \<longrightarrow>
              calls (snd (collect_all dm clock (take k ms) (init clock cfg d)))
                = map SaveRawMessage (take 100 ms)"
    using run(2) by simp
  have "calls w = map SaveRawMessage (take 100 ms) \<and> message_cache w = take 50 (drop 100 ms)"
    using run(2) [of 150] len w by simp
  then have c: "calls w = map SaveRawMessage (take 100 ms)" and e: "message_cache w = drop 100 ms"
    using len by simp_all
  have f: "length (message_cache w) = 50" using e len by simp
  show ?thesis
    using a b c e f get_statistics_flushed [OF ok, of clock w] by simp
qed

text \<open>
  The scenario with 150 copies of one valid message, a storage that accepts everything
  and a clock that stands still: 50 messages are buffered after the last call, and
  \<open>get_statistics\<close> reports \<open>cache_size\<close> 0, not 50.
\<close>

theorem statistics_after_150_counterexample:
  "length (message_cache (snd (collect_all reliable_gateway still_clock scenario_messages
                                 fresh_service))) = 50
   \<and> reported_cache_size
        (fst (get_statistics reliable_gateway still_clock
               (snd (collect_all reliable_gateway still_clock scenario_messages fresh_service))))
       = Some (IntVal 0)
   \<and> reported_cache_size
        (fst (get_statistics reliable_gateway still_clock
               (snd (collect_all reliable_gateway still_clock scenario_messages fresh_service))))
       \<noteq> Some (IntVal 50)"
proof -
  have len: "length scenario_messages = 150" by (simp add: scenario_messages_def)
  have "message_cache (snd (collect_all reliable_gateway still_clock (take 150 scenario_messages)
                              (init still_clock [] [])))
          = take (150 - 100) (drop 100 scenario_messages)"
    using scenario_run(2) [OF len scenario_messages_valid reliable_writes_succeed
                              still_clock_still, of 150 "[]" "[]"]
    by simp
  then have l: "length (message_cache (snd (collect_all reliable_gateway still_clock
                                              scenario_messages fresh_service))) = 50"
    using len by (simp add: fresh_service_def)
  have r: "reported_cache_size
        (fst (get_statistics reliable_gateway still_clock
               (snd (collect_all reliable_gateway still_clock scenario_messages fresh_service))))
       = Some (IntVal 0)"
    using get_statistics_flushed(3) [OF reliable_writes_succeed] reliable_statistics_ok
    by simp
  show ?thesis using l r by simp
qed

theorem collect_150_then_statistics_witness:
  "length scenario_messages = 150
   \<and> writes_succeed reliable_gateway
   \<and> calls (snd (collect_all reliable_gateway still_clock (take 99 scenario_messages)
                   fresh_service)) = []
   \<and> calls (snd (collect_all reliable_gateway still_clock (take 100 scenario_messages)
                   fresh_service)) = map SaveRawMessage (take 100 scenario_messages)
   \<and> message_cache (snd (collect_all reliable_gateway still_clock scenario_messages fresh_service))
       = drop 100 scenario_messages
   \<and> message_cache
        (snd (get_statistics reliable_gateway still_clock
               (snd (collect_all reliable_gateway still_clock scenario_messages fresh_service))))
       = []"
proof -
  have len: "length scenario_messages = 150" by (simp add: scenario_messages_def)
  note t = collect_150_then_statistics [OF len scenario_messages_valid reliable_writes_succeed
                                           still_clock_still refl, of "[]" "[]"]
  show ?thesis
    using len reliable_writes_succeed t unfolding fresh_service_def by simp
qed

section \<open>Reading after writing\<close>













section \<open>Storage faults\<close>











end
